theory Spec2Isabelle
  imports Main "HOL-Library.AList" "HOL-Library.Sublist" "HOL-Library.Char_ord"
    "HOL-Library.List_Lexorder" "HOL-Library.Product_Lexorder" "HOL-Library.Multiset"
begin

section \<open>Strings\<close>

text \<open>
  A Python \<open>str\<close> is a sequence of code points. The model reads a \<^typ>\<open>char\<close> as one of the
  code points U+0000 .. U+00FF, so a \<^typ>\<open>string\<close> is a Python string over that range.
  The range is closed under \<open>str.lower\<close>, which maps one code point to one code point there.
\<close>

definition isspace :: "char \<Rightarrow> bool" where
  \<comment> \<open>\<open>str.isspace\<close> on one code point: U+0009..U+000D, U+001C..U+0020, U+0085, U+00A0.\<close>
  "isspace c =
     (let n = (of_char c :: nat)
      in (9 \<le> n \<and> n \<le> 13) \<or> (28 \<le> n \<and> n \<le> 32) \<or> n = 133 \<or> n = 160)"

definition strip :: "string \<Rightarrow> string" where
  \<comment> \<open>\<open>s.strip()\<close>: leading and trailing whitespace removed.\<close>
  "strip s = rev (dropWhile isspace (rev (dropWhile isspace s)))"

definition lower_char :: "char \<Rightarrow> char" where
  \<comment> \<open>\<open>str.lower\<close> on one code point: A..Z and U+00C0..U+00DE except U+00D7 move up by 32.\<close>
  "lower_char c =
     (let n = (of_char c :: nat)
      in if (65 \<le> n \<and> n \<le> 90) \<or> (192 \<le> n \<and> n \<le> 222 \<and> n \<noteq> 215)
         then char_of (n + 32) else c)"

definition lower :: "string \<Rightarrow> string" where
  "lower s = map lower_char s"

section \<open>Genre normalisation\<close>

text \<open>
  The loop of \<open>_normalize_genres\<close>: \<open>seen\<close> is the set of lower-cased keys met so far,
  \<open>out\<close> the list built so far.
\<close>

fun normalize_loop :: "string list \<Rightarrow> string set \<Rightarrow> string list \<Rightarrow> string list" where
  "normalize_loop [] seen out = out"
| "normalize_loop (g # gs) seen out =
     (let g2 = strip g
      in if g2 = [] then normalize_loop gs seen out
         else let key = lower g2
              in if key \<notin> seen then normalize_loop gs (insert key seen) (out @ [g2])
                 else normalize_loop gs seen out)"

definition normalize_genres :: "string list option \<Rightarrow> string list" where
  \<comment> \<open>\<open>if not genres: return []\<close> covers both \<open>None\<close> and the empty list.\<close>
  "normalize_genres genres =
     (case genres of
        None \<Rightarrow> []
      | Some gs \<Rightarrow> if gs = [] then [] else normalize_loop gs {} [])"

section \<open>Records, errors and the store\<close>

text \<open>
  Every failure of the program is a \<open>ValueError\<close> told apart by its message. The kinds
  of the design document name the raise sites: \<open>InvalidArgument\<close> for
  \<open>title is required.\<close>, \<open>title cannot be empty.\<close>, \<open>year looks invalid.\<close> and
  \<open>borrower is required.\<close>; \<open>NotFound\<close> for \<open>Movie not found: ...\<close>; \<open>Conflict\<close> for
  \<open>Movie is already borrowed by ... .\<close>; \<open>InvalidState\<close> for \<open>Movie is not borrowed.\<close>
\<close>

datatype error = ValueError string

type_synonym timestamp = string

text \<open>The dictionary of one movie, with the keys \<open>add_movie\<close> gives it (\<open>ident\<close> is \<open>"id"\<close>).\<close>

record movie =
  ident :: string
  title :: string
  year :: int
  genres :: "string list"
  director :: "string option"
  borrowed :: bool
  borrowed_by :: "string option"
  borrowed_at :: "timestamp option"
  created_at :: timestamp
  updated_at :: timestamp

text \<open>
  \<open>_movies\<close>: a Python dictionary keeps its keys in insertion order, assignment to a key it
  already has replaces the value in place (\<^const>\<open>AList.update\<close>), \<open>del\<close> removes the entry
  (\<^const>\<open>AList.delete\<close>).
\<close>

type_synonym store = "(string \<times> movie) list"

definition or_empty :: "string option \<Rightarrow> string" where
  \<comment> \<open>\<open>(x or "")\<close>\<close>
  "or_empty x = (case x of None \<Rightarrow> [] | Some v \<Rightarrow> v)"

definition format_opt :: "string option \<Rightarrow> string" where
  \<comment> \<open>an optional string inside an f-string\<close>
  "format_opt x = (case x of None \<Rightarrow> ''None'' | Some v \<Rightarrow> v)"

definition require_movie :: "store \<Rightarrow> string \<Rightarrow> error + movie" where
  "require_movie s movie_id =
     (case map_of s movie_id of
        None \<Rightarrow> Inl (ValueError (''Movie not found: '' @ movie_id))
      | Some m \<Rightarrow> Inr m)"

definition movie_public :: "movie \<Rightarrow> movie" where
  \<comment> \<open>\<open>dict(m)\<close>: a dictionary with the same keys and values.\<close>
  "movie_public m = m"

section \<open>The operations\<close>

text \<open>
  What an operation reads from its environment is an argument of the model: \<open>new_id\<close> is the
  string \<open>uuid.uuid4()\<close> returns, \<open>now1\<close> and \<open>now2\<close> are what the first and the second call
  of \<open>_now_iso()\<close> return. An operation that mutates returns the store it leaves behind,
  also when it raises.
\<close>

definition add_movie ::
  "string \<Rightarrow> timestamp \<Rightarrow> timestamp \<Rightarrow> string \<Rightarrow> int \<Rightarrow> string list option \<Rightarrow> string option
     \<Rightarrow> store \<Rightarrow> store \<times> (error + movie)" where
  "add_movie new_id now1 now2 title0 yr gs dir s =
     (let t = strip title0
      in if t = [] then (s, Inl (ValueError ''title is required.''))
         else if yr < 1878 \<or> yr > 3000 then (s, Inl (ValueError ''year looks invalid.''))
         else
           let record = \<lparr>ident = new_id, title = t, year = yr,
                 genres = normalize_genres gs,
                 director = (let d = strip (or_empty dir) in if d = [] then None else Some d),
                 borrowed = False, borrowed_by = None, borrowed_at = None,
                 created_at = now1, updated_at = now2\<rparr>
           in (AList.update new_id record s, Inr (movie_public record)))"

definition get_movie :: "string \<Rightarrow> store \<Rightarrow> error + movie" where
  "get_movie movie_id s =
     (case require_movie s movie_id of Inl e \<Rightarrow> Inl e | Inr m \<Rightarrow> Inr (movie_public m))"

definition movie_key :: "movie \<Rightarrow> string \<times> int \<times> string" where
  \<comment> \<open>the sort key \<open>(x["title"].lower(), x["year"], x["id"])\<close>; tuples and strings compare
      lexicographically, characters by code point\<close>
  "movie_key x = (lower (title x), year x, ident x)"


definition search_movies ::
  "string option \<Rightarrow> int option \<Rightarrow> string option \<Rightarrow> string option \<Rightarrow> bool \<Rightarrow> store \<Rightarrow> movie list" where
  "search_movies query yr genre dir only_available s =
     (let q = lower (strip (or_empty query));
          g = lower (strip (or_empty genre));
          d = lower (strip (or_empty dir));
          results = map snd s;
          results = (if only_available then filter (\<lambda>m. \<not> borrowed m) results else results);
          results = (if q \<noteq> [] then filter (\<lambda>m. sublist q (lower (title m))) results
                     else results);
          results = (case yr of None \<Rightarrow> results
                     | Some y \<Rightarrow> filter (\<lambda>m. year m = y) results);
          results = (if g \<noteq> [] then filter (\<lambda>m. list_ex (\<lambda>gg. g = lower gg) (genres m)) results
                     else results);
          results = (if d \<noteq> [] then filter (\<lambda>m. sublist d (lower (or_empty (director m)))) results
                     else results)
      in map movie_public (sort_key movie_key results))"

definition update_movie ::
  "timestamp \<Rightarrow> string \<Rightarrow> string option \<Rightarrow> int option \<Rightarrow> string list option \<Rightarrow> string option
     \<Rightarrow> store \<Rightarrow> store \<times> (error + movie)" where
  \<comment> \<open>\<open>m\<close> is the stored dictionary itself: each assignment to one of its keys is a write to
      the store, and a later \<open>raise\<close> leaves the earlier writes in place.\<close>
  "update_movie now movie_id title0 yr gs dir s =
     (case require_movie s movie_id of
        Inl e \<Rightarrow> (s, Inl e)
      | Inr m \<Rightarrow>
          if title0 \<noteq> None \<and> strip (the title0) = []
          then (s, Inl (ValueError ''title cannot be empty.''))
          else
            let m1 = (case title0 of None \<Rightarrow> m | Some t0 \<Rightarrow> m\<lparr>title := strip t0\<rparr>)
            in if yr \<noteq> None \<and> (the yr < 1878 \<or> the yr > 3000)
               then (AList.update movie_id m1 s, Inl (ValueError ''year looks invalid.''))
               else
                 let m2 = (case yr of None \<Rightarrow> m1 | Some y \<Rightarrow> m1\<lparr>year := y\<rparr>);
                     m3 = (if gs \<noteq> None then m2\<lparr>genres := normalize_genres gs\<rparr> else m2);
                     m4 = (case dir of None \<Rightarrow> m3
                           | Some d0 \<Rightarrow>
                               m3\<lparr>director := (let d = strip d0 in if d = [] then None else Some d)\<rparr>);
                     m5 = m4\<lparr>updated_at := now\<rparr>
                 in (AList.update movie_id m5 s, Inr (movie_public m5)))"

definition delete_movie :: "string \<Rightarrow> store \<Rightarrow> store \<times> (error + bool \<times> string)" where
  \<comment> \<open>the confirmation \<open>{"deleted": True, "id": movie_id}\<close> as a pair\<close>
  "delete_movie movie_id s =
     (case require_movie s movie_id of
        Inl e \<Rightarrow> (s, Inl e)
      | Inr m \<Rightarrow> (AList.delete movie_id s, Inr (True, movie_id)))"

definition borrow_movie ::
  "timestamp \<Rightarrow> timestamp \<Rightarrow> string \<Rightarrow> string \<Rightarrow> store \<Rightarrow> store \<times> (error + movie)" where
  "borrow_movie now1 now2 movie_id borrower0 s =
     (let borrower = strip borrower0
      in if borrower = [] then (s, Inl (ValueError ''borrower is required.''))
         else
           case require_movie s movie_id of
             Inl e \<Rightarrow> (s, Inl e)
           | Inr m \<Rightarrow>
               if borrowed m
               then (s, Inl (ValueError
                      (''Movie is already borrowed by '' @ format_opt (borrowed_by m) @ ''.'')))
               else
                 let m' = m\<lparr>borrowed := True, borrowed_by := Some borrower,
                            borrowed_at := Some now1, updated_at := now2\<rparr>
                 in (AList.update movie_id m' s, Inr (movie_public m')))"

definition return_movie :: "timestamp \<Rightarrow> string \<Rightarrow> store \<Rightarrow> store \<times> (error + movie)" where
  "return_movie now movie_id s =
     (case require_movie s movie_id of
        Inl e \<Rightarrow> (s, Inl e)
      | Inr m \<Rightarrow>
          if \<not> borrowed m then (s, Inl (ValueError ''Movie is not borrowed.''))
          else
            let m' = m\<lparr>borrowed := False, borrowed_by := None, borrowed_at := None,
                       updated_at := now\<rparr>
            in (AList.update movie_id m' s, Inr (movie_public m')))"

section \<open>Sequences of calls\<close>

text \<open>A call of one of the eight operations, with what it reads from its environment.\<close>

datatype call =
    Add string timestamp timestamp string int "string list option" "string option"
  | Get string
  | List bool
  | Search "string option" "int option" "string option" "string option" bool
  | Update timestamp string "string option" "int option" "string list option" "string option"
  | Delete string
  | Borrow timestamp timestamp string string
  | Return timestamp string

fun step :: "store \<Rightarrow> call \<Rightarrow> store" where
  "step s (Add new_id now1 now2 t y gs d) = fst (add_movie new_id now1 now2 t y gs d s)"
| "step s (Get movie_id) = s"
| "step s (List only_available) = s"
| "step s (Search q y g d only_available) = s"
| "step s (Update now movie_id t y gs d) = fst (update_movie now movie_id t y gs d s)"
| "step s (Delete movie_id) = fst (delete_movie movie_id s)"
| "step s (Borrow now1 now2 movie_id b) = fst (borrow_movie now1 now2 movie_id b s)"
| "step s (Return now movie_id) = fst (return_movie now movie_id s)"

definition run :: "call list \<Rightarrow> store" where
  \<comment> \<open>the store after the calls, from the empty store the module starts with\<close>
  "run cs = foldl step [] cs"

definition checkout_inv :: "movie \<Rightarrow> bool" where
  "checkout_inv m =
     ((borrowed m = (borrowed_by m \<noteq> None \<and> borrowed_at m \<noteq> None))
      \<and> ((\<not> borrowed m) = (borrowed_by m = None \<and> borrowed_at m = None)))"

definition store_checkout_inv :: "store \<Rightarrow> bool" where
  "store_checkout_inv s = list_all checkout_inv (map snd s)"


section \<open>The order and the filters, as predicates\<close>



definition provided :: "string option \<Rightarrow> bool" where
  \<comment> \<open>a filter string counts when it is given and not blank\<close>
  "provided x = (strip (or_empty x) \<noteq> [])"

definition matches ::
  "string option \<Rightarrow> int option \<Rightarrow> string option \<Rightarrow> string option \<Rightarrow> bool \<Rightarrow> movie \<Rightarrow> bool" where
  \<comment> \<open>every filter that is provided holds, each filter string trimmed first\<close>
  "matches query yr genre dir only_available m =
     ((only_available \<longrightarrow> \<not> borrowed m)
      \<and> (provided query \<longrightarrow> sublist (lower (strip (or_empty query))) (lower (title m)))
      \<and> (yr \<noteq> None \<longrightarrow> year m = the yr)
      \<and> (provided genre \<longrightarrow> lower (strip (or_empty genre)) \<in> lower ` set (genres m))
      \<and> (provided dir \<longrightarrow> director m \<noteq> None
            \<and> sublist (lower (strip (or_empty dir))) (lower (the (director m)))))"

definition claimed_matches ::
  "string option \<Rightarrow> int option \<Rightarrow> string option \<Rightarrow> string option \<Rightarrow> bool \<Rightarrow> movie \<Rightarrow> bool" where
  \<comment> \<open>the filters as the design document words them: the filter string itself is what is
      matched, a blank one counting as not provided\<close>
  "claimed_matches query yr genre dir only_available m =
     ((only_available \<longrightarrow> \<not> borrowed m)
      \<and> (provided query \<longrightarrow> sublist (lower (or_empty query)) (lower (title m)))
      \<and> (yr \<noteq> None \<longrightarrow> year m = the yr)
      \<and> (provided genre \<longrightarrow> lower (or_empty genre) \<in> lower ` set (genres m))
      \<and> (provided dir \<longrightarrow> director m \<noteq> None
            \<and> sublist (lower (or_empty dir)) (lower (the (director m)))))"

section \<open>Objects: which dictionaries and lists a returned value shares with the store\<close>

text \<open>
  The operations above return the contents of a record. What a caller can do to the store
  through a returned value depends on which objects that value shares with the store, so
  here the objects are explicit. Strings, integers, booleans and \<open>None\<close> are immutable and
  stay values; a dictionary and a list are objects with an address. The value a record's
  dictionary holds under \<open>"genres"\<close> is the address of a list object.
\<close>

type_synonym addr = nat

record dict_obj =
  d_ident :: string
  d_title :: string
  d_year :: int
  d_genres :: addr
  d_director :: "string option"
  d_borrowed :: bool
  d_borrowed_by :: "string option"
  d_borrowed_at :: "timestamp option"
  d_created_at :: timestamp
  d_updated_at :: timestamp

record heap =
  dict_objs :: "dict_obj list"
  list_objs :: "string list list"
  movies :: "(string \<times> addr) list"

text \<open>
  \<open>dict_objs\<close> and \<open>list_objs\<close> hold the dictionary and the list objects, an object's address being
  its position; \<open>movies\<close> is \<open>_movies\<close>, from an id to the address of the record's dictionary.
\<close>

definition value_of :: "heap \<Rightarrow> addr \<Rightarrow> movie" where
  \<comment> \<open>the contents of the dictionary at an address, its genres list read through\<close>
  "value_of h a =
     (let d = dict_objs h ! a
      in \<lparr>ident = d_ident d, title = d_title d, year = d_year d,
           genres = list_objs h ! d_genres d, director = d_director d,
           borrowed = d_borrowed d, borrowed_by = d_borrowed_by d,
           borrowed_at = d_borrowed_at d, created_at = d_created_at d,
           updated_at = d_updated_at d\<rparr>)"

definition store_of :: "heap \<Rightarrow> store" where
  \<comment> \<open>the state of the store: every id with the contents of its record\<close>
  "store_of h = map (\<lambda>(k, a). (k, value_of h a)) (movies h)"

definition heap_ok :: "heap \<Rightarrow> bool" where
  \<comment> \<open>every stored address is the address of a dictionary\<close>
  "heap_ok h = list_all (\<lambda>(k, a). a < length (dict_objs h)) (movies h)"

definition new_list :: "string list \<Rightarrow> heap \<Rightarrow> addr \<times> heap" where
  "new_list xs h = (length (list_objs h), h\<lparr>list_objs := list_objs h @ [xs]\<rparr>)"

definition new_dict :: "dict_obj \<Rightarrow> heap \<Rightarrow> addr \<times> heap" where
  "new_dict d h = (length (dict_objs h), h\<lparr>dict_objs := dict_objs h @ [d]\<rparr>)"

definition setitem :: "addr \<Rightarrow> (dict_obj \<Rightarrow> dict_obj) \<Rightarrow> heap \<Rightarrow> heap" where
  \<comment> \<open>\<open>m[key] = value\<close> on the dictionary at an address; \<open>f\<close> sets the key\<close>
  "setitem a f h = h\<lparr>dict_objs := (dict_objs h)[a := f (dict_objs h ! a)]\<rparr>"

definition list_append :: "addr \<Rightarrow> string \<Rightarrow> heap \<Rightarrow> heap" where
  \<comment> \<open>\<open>xs.append(x)\<close> on the list at an address\<close>
  "list_append a x h = h\<lparr>list_objs := (list_objs h)[a := list_objs h ! a @ [x]]\<rparr>"

definition require_movie_obj :: "heap \<Rightarrow> string \<Rightarrow> error + addr" where
  "require_movie_obj h movie_id =
     (case map_of (movies h) movie_id of
        None \<Rightarrow> Inl (ValueError (''Movie not found: '' @ movie_id))
      | Some m \<Rightarrow> Inr m)"

definition movie_public_obj :: "addr \<Rightarrow> heap \<Rightarrow> addr \<times> heap" where
  \<comment> \<open>\<open>dict(m)\<close>: a new dictionary with the keys and the values of \<open>m\<close>; a value that is an
      address is copied as an address\<close>
  "movie_public_obj m h = new_dict (dict_objs h ! m) h"

fun public_all :: "addr list \<Rightarrow> heap \<Rightarrow> addr list \<times> heap" where
  \<comment> \<open>\<open>[_movie_public(m) for m in items]\<close>\<close>
  "public_all [] h = ([], h)"
| "public_all (m # ms) h =
     (let (r, h1) = movie_public_obj m h;
          (rs, h2) = public_all ms h1
      in (r # rs, h2))"

definition add_movie_obj ::
  "string \<Rightarrow> timestamp \<Rightarrow> timestamp \<Rightarrow> string \<Rightarrow> int \<Rightarrow> string list option \<Rightarrow> string option
     \<Rightarrow> heap \<Rightarrow> heap \<times> (error + addr)" where
  \<comment> \<open>\<open>_normalize_genres\<close> returns a list it has built itself, a new object\<close>
  "add_movie_obj new_id now1 now2 title0 yr gs dir h =
     (let t = strip title0
      in if t = [] then (h, Inl (ValueError ''title is required.''))
         else if yr < 1878 \<or> yr > 3000 then (h, Inl (ValueError ''year looks invalid.''))
         else
           let (gl, h1) = new_list (normalize_genres gs) h;
               (record, h2) = new_dict
                 \<lparr>d_ident = new_id, d_title = t, d_year = yr, d_genres = gl,
                  d_director = (let d = strip (or_empty dir) in if d = [] then None else Some d),
                  d_borrowed = False, d_borrowed_by = None, d_borrowed_at = None,
                  d_created_at = now1, d_updated_at = now2\<rparr> h1;
               h3 = h2\<lparr>movies := AList.update new_id record (movies h2)\<rparr>;
               (r, h4) = movie_public_obj record h3
           in (h4, Inr r))"

definition get_movie_obj :: "string \<Rightarrow> heap \<Rightarrow> heap \<times> (error + addr)" where
  "get_movie_obj movie_id h =
     (case require_movie_obj h movie_id of
        Inl e \<Rightarrow> (h, Inl e)
      | Inr m \<Rightarrow> (let (r, h1) = movie_public_obj m h in (h1, Inr r)))"

definition dict_key :: "dict_obj \<Rightarrow> string \<times> int \<times> string" where
  "dict_key x = (lower (d_title x), d_year x, d_ident x)"

definition list_movies_obj :: "bool \<Rightarrow> heap \<Rightarrow> addr list \<times> heap" where
  "list_movies_obj only_available h =
     (let items = map snd (movies h);
          items = (if only_available then filter (\<lambda>m. \<not> d_borrowed (dict_objs h ! m)) items
                   else items)
      in public_all (sort_key (\<lambda>m. dict_key (dict_objs h ! m)) items) h)"

definition search_movies_obj ::
  "string option \<Rightarrow> int option \<Rightarrow> string option \<Rightarrow> string option \<Rightarrow> bool \<Rightarrow> heap
     \<Rightarrow> addr list \<times> heap" where
  "search_movies_obj query yr genre dir only_available h =
     (let q = lower (strip (or_empty query));
          g = lower (strip (or_empty genre));
          d = lower (strip (or_empty dir));
          results = map snd (movies h);
          results = (if only_available then filter (\<lambda>m. \<not> d_borrowed (dict_objs h ! m)) results
                     else results);
          results = (if q \<noteq> [] then filter (\<lambda>m. sublist q (lower (d_title (dict_objs h ! m)))) results
                     else results);
          results = (case yr of None \<Rightarrow> results
                     | Some y \<Rightarrow> filter (\<lambda>m. d_year (dict_objs h ! m) = y) results);
          results = (if g \<noteq> []
                     then filter (\<lambda>m. list_ex (\<lambda>gg. g = lower gg)
                                        (list_objs h ! d_genres (dict_objs h ! m))) results
                     else results);
          results = (if d \<noteq> []
                     then filter (\<lambda>m. sublist d (lower (or_empty (d_director (dict_objs h ! m)))))
                            results
                     else results)
      in public_all (sort_key (\<lambda>m. dict_key (dict_objs h ! m)) results) h)"

definition update_movie_obj ::
  "timestamp \<Rightarrow> string \<Rightarrow> string option \<Rightarrow> int option \<Rightarrow> string list option \<Rightarrow> string option
     \<Rightarrow> heap \<Rightarrow> heap \<times> (error + addr)" where
  "update_movie_obj now movie_id title0 yr gs dir h =
     (case require_movie_obj h movie_id of
        Inl e \<Rightarrow> (h, Inl e)
      | Inr m \<Rightarrow>
          if title0 \<noteq> None \<and> strip (the title0) = []
          then (h, Inl (ValueError ''title cannot be empty.''))
          else
            let h1 = (case title0 of None \<Rightarrow> h
                      | Some t0 \<Rightarrow> setitem m (\<lambda>x. x\<lparr>d_title := strip t0\<rparr>) h)
            in if yr \<noteq> None \<and> (the yr < 1878 \<or> the yr > 3000)
               then (h1, Inl (ValueError ''year looks invalid.''))
               else
                 let h2 = (case yr of None \<Rightarrow> h1
                           | Some y \<Rightarrow> setitem m (\<lambda>x. x\<lparr>d_year := y\<rparr>) h1);
                     h3 = (if gs \<noteq> None
                           then (let (gl, h') = new_list (normalize_genres gs) h2
                                 in setitem m (\<lambda>x. x\<lparr>d_genres := gl\<rparr>) h')
                           else h2);
                     h4 = (case dir of None \<Rightarrow> h3
                           | Some d0 \<Rightarrow>
                               setitem m (\<lambda>x. x\<lparr>d_director :=
                                 (let d = strip d0 in if d = [] then None else Some d)\<rparr>) h3);
                     h5 = setitem m (\<lambda>x. x\<lparr>d_updated_at := now\<rparr>) h4;
                     (r, h6) = movie_public_obj m h5
                 in (h6, Inr r))"

definition borrow_movie_obj ::
  "timestamp \<Rightarrow> timestamp \<Rightarrow> string \<Rightarrow> string \<Rightarrow> heap \<Rightarrow> heap \<times> (error + addr)" where
  "borrow_movie_obj now1 now2 movie_id borrower0 h =
     (let borrower = strip borrower0
      in if borrower = [] then (h, Inl (ValueError ''borrower is required.''))
         else
           case require_movie_obj h movie_id of
             Inl e \<Rightarrow> (h, Inl e)
           | Inr m \<Rightarrow>
               if d_borrowed (dict_objs h ! m)
               then (h, Inl (ValueError
                      (''Movie is already borrowed by ''
                         @ format_opt (d_borrowed_by (dict_objs h ! m)) @ ''.'')))
               else
                 let h1 = setitem m (\<lambda>x. x\<lparr>d_borrowed := True\<rparr>) h;
                     h2 = setitem m (\<lambda>x. x\<lparr>d_borrowed_by := Some borrower\<rparr>) h1;
                     h3 = setitem m (\<lambda>x. x\<lparr>d_borrowed_at := Some now1\<rparr>) h2;
                     h4 = setitem m (\<lambda>x. x\<lparr>d_updated_at := now2\<rparr>) h3;
                     (r, h5) = movie_public_obj m h4
                 in (h5, Inr r))"

definition return_movie_obj :: "timestamp \<Rightarrow> string \<Rightarrow> heap \<Rightarrow> heap \<times> (error + addr)" where
  "return_movie_obj now movie_id h =
     (case require_movie_obj h movie_id of
        Inl e \<Rightarrow> (h, Inl e)
      | Inr m \<Rightarrow>
          if \<not> d_borrowed (dict_objs h ! m) then (h, Inl (ValueError ''Movie is not borrowed.''))
          else
            let h1 = setitem m (\<lambda>x. x\<lparr>d_borrowed := False\<rparr>) h;
                h2 = setitem m (\<lambda>x. x\<lparr>d_borrowed_by := None\<rparr>) h1;
                h3 = setitem m (\<lambda>x. x\<lparr>d_borrowed_at := None\<rparr>) h2;
                h4 = setitem m (\<lambda>x. x\<lparr>d_updated_at := now\<rparr>) h3;
                (r, h5) = movie_public_obj m h4
            in (h5, Inr r))"

definition copy_of :: "heap \<Rightarrow> addr \<Rightarrow> addr \<Rightarrow> bool" where
  \<comment> \<open>\<open>r\<close> is a dictionary that is not one of the store's and holds what the dictionary \<open>m\<close>
      holds, the address of the genres list of \<open>m\<close> included\<close>
  "copy_of h r m =
     (r < length (dict_objs h) \<and> m < length (dict_objs h) \<and> r \<notin> snd ` set (movies h)
      \<and> dict_objs h ! r = dict_objs h ! m)"

section \<open>Example records\<close>

definition dune :: movie where
  "dune = \<lparr>ident = ''id1'', title = ''Dune'', year = 2021, genres = [''Sci-Fi''],
     director = Some ''Denis Villeneuve'', borrowed = False, borrowed_by = None,
     borrowed_at = None, created_at = ''2024-05-01T10:00:00.000001+00:00'',
     updated_at = ''2024-05-01T10:00:00.000002+00:00''\<rparr>"

definition dune_out :: movie where
  "dune_out = dune\<lparr>borrowed := True, borrowed_by := Some ''Alice'',
     borrowed_at := Some ''2024-05-02T09:00:00.000001+00:00'',
     updated_at := ''2024-05-02T09:00:00.000002+00:00''\<rparr>"

definition movie_b :: movie where
  "movie_b = dune\<lparr>title := ''b'', year := 2000\<rparr>"

definition movie_A :: movie where
  "movie_A = dune\<lparr>ident := ''id2'', title := ''A'', year := 1999\<rparr>"

definition movie_a :: movie where
  "movie_a = dune\<lparr>ident := ''id3'', title := ''a'', year := 2001\<rparr>"

definition three_movies :: store where
  \<comment> \<open>titles \<open>b\<close>, \<open>A\<close>, \<open>a\<close> with the years 2000, 1999, 2001, in this insertion order\<close>
  "three_movies = [(''id1'', movie_b), (''id2'', movie_A), (''id3'', movie_a)]"

definition empty_heap :: heap where
  \<comment> \<open>the module has just been loaded: \<open>_movies = {}\<close>\<close>
  "empty_heap = \<lparr>dict_objs = [], list_objs = [], movies = []\<rparr>"

definition dune_dict :: dict_obj where
  "dune_dict = \<lparr>d_ident = ''id1'', d_title = ''Dune'', d_year = 2021, d_genres = 0,
     d_director = Some ''Denis Villeneuve'', d_borrowed = False, d_borrowed_by = None,
     d_borrowed_at = None, d_created_at = ''2024-05-01T10:00:00.000001+00:00'',
     d_updated_at = ''2024-05-01T10:00:00.000002+00:00''\<rparr>"

definition dune_heap :: heap where
  \<comment> \<open>after one \<open>add_movie\<close>: the stored dictionary at 0, the returned one at 1, both holding
      the address of the one genres list\<close>
  "dune_heap = \<lparr>dict_objs = [dune_dict, dune_dict], list_objs = [[''Sci-Fi'']], movies = [(''id1'', 0)]\<rparr>"

definition dune_calls :: "call list" where
  "dune_calls =
     [Add ''id1'' ''2024-05-01T10:00:00.000001+00:00'' ''2024-05-01T10:00:00.000002+00:00''
        ''Dune'' 2021 (Some [''Sci-Fi'']) (Some ''Denis Villeneuve''),
      Borrow ''2024-05-02T09:00:00.000001+00:00'' ''2024-05-02T09:00:00.000002+00:00''
        ''id1'' ''Alice'']"

section \<open>Properties of genre normalisation\<close>

lemma strip_Nil: "strip [] = []"
  by (simp add: strip_def)

lemma dropWhile_id_hd: "xs = [] \<or> \<not> P (hd xs) \<Longrightarrow> dropWhile P xs = xs"
  by (cases xs) auto

lemma dropWhile_hd_not: "dropWhile P xs = [] \<or> \<not> P (hd (dropWhile P xs))"
  using hd_dropWhile by blast

lemma strip_ends:
  "strip s = [] \<or> (\<not> isspace (hd (strip s)) \<and> \<not> isspace (last (strip s)))"
proof (cases "dropWhile isspace s = []")
  case True
  have "strip s = []" unfolding strip_def True by simp
  then show ?thesis ..
next
  case False
  define a where "a = dropWhile isspace s"
  define b where "b = dropWhile isspace (rev a)"
  have a: "a \<noteq> []" "\<not> isspace (hd a)"
    using False hd_dropWhile[of isspace s] by (simp_all add: a_def)
  have sb: "strip s = rev b" by (simp add: strip_def a_def b_def)
  show ?thesis
  proof (cases "b = []")
    case True
    then show ?thesis by (simp add: sb)
  next
    case bne: False
    then have "\<not> isspace (hd b)" using hd_dropWhile[of isspace "rev a"] by (simp add: b_def)
    then have l: "\<not> isspace (last (rev b))" using bne by (simp add: last_rev)
    have "\<exists>ys. rev a = ys @ b" unfolding b_def
      by (metis takeWhile_dropWhile_id)
    then obtain ys where "rev a = ys @ b" ..
    then have "a = rev b @ rev ys" by (metis rev_append rev_rev_ident)
    then have "hd (rev b) = hd a" using bne by simp
    then show ?thesis using a l by (simp add: sb)
  qed
qed

lemma strip_idem: "strip (strip s) = strip s"
proof (cases "strip s = []")
  case True
  show ?thesis by (simp only: True strip_Nil)
next
  case False
  then have h: "\<not> isspace (hd (strip s))" and l: "\<not> isspace (last (strip s))"
    using strip_ends[of s] by auto
  have 1: "dropWhile isspace (strip s) = strip s"
    using h by (intro dropWhile_id_hd) simp
  have "\<not> isspace (hd (rev (strip s)))" using l False by (simp add: hd_rev)
  then have 2: "dropWhile isspace (rev (strip s)) = rev (strip s)"
    by (intro dropWhile_id_hd) simp
  show ?thesis
    unfolding strip_def[of "strip s"] 1 2 by simp
qed

text \<open>The loop without its accumulator.\<close>

lemma normalize_loop_out:
  "normalize_loop gs seen out = out @ normalize_loop gs seen []"
proof (induction gs arbitrary: seen out)
  case Nil
  then show ?case by simp
next
  case (Cons g gs)
  show ?case
    using Cons.IH[of seen out] Cons.IH[of "insert (lower (strip g)) seen" "out @ [strip g]"]
      Cons.IH[of "insert (lower (strip g)) seen" "[strip g]"]
    by (simp add: Let_def)
qed

lemma normalize_loop_Cons:
  "normalize_loop (g # gs) seen [] =
     (if strip g = [] \<or> lower (strip g) \<in> seen then normalize_loop gs seen []
      else strip g # normalize_loop gs (insert (lower (strip g)) seen) [])"
  using normalize_loop_out[of gs "insert (lower (strip g)) seen" "[strip g]"]
  by (simp add: Let_def)

lemma normalize_loop_idem:
  "normalize_loop (normalize_loop gs seen []) seen [] = normalize_loop gs seen []"
proof (induction gs arbitrary: seen)
  case Nil
  then show ?case by simp
next
  case (Cons g gs)
  show ?case
  proof (cases "strip g = [] \<or> lower (strip g) \<in> seen")
    case True
    then show ?thesis using Cons.IH[of seen] by (simp only: normalize_loop_Cons if_True)
  next
    case False
    let ?k = "lower (strip g)"
    have "normalize_loop (g # gs) seen [] = strip g # normalize_loop gs (insert ?k seen) []"
      using False by (simp only: normalize_loop_Cons if_False)
    moreover have "normalize_loop (strip g # normalize_loop gs (insert ?k seen) []) seen [] =
        strip g # normalize_loop (normalize_loop gs (insert ?k seen) []) (insert ?k seen) []"
      using False by (simp only: normalize_loop_Cons strip_idem if_False)
    ultimately show ?thesis using Cons.IH[of "insert ?k seen"] by simp
  qed
qed

text \<open>
  C9. Normalising a genre list twice gives what normalising it once gives, for every
  argument of \<open>_normalize_genres\<close> (\<open>None\<close> and the empty list included); and
  \<open>["Action", "action", "Drama"]\<close> is normalised to \<open>["Action", "Drama"]\<close>.
\<close>

theorem normalize_genres_idempotent:
  "normalize_genres (Some (normalize_genres gs)) = normalize_genres gs
   \<and> normalize_genres (Some [''Action'', ''action'', ''Drama'']) = [''Action'', ''Drama'']"
proof
  show "normalize_genres (Some (normalize_genres gs)) = normalize_genres gs"
  proof (cases gs)
    case None
    then show ?thesis by (simp add: normalize_genres_def)
  next
    case (Some xs)
    show ?thesis
    proof (cases "xs = []")
      case True
      then show ?thesis using Some by (simp add: normalize_genres_def)
    next
      case False
      then show ?thesis using Some normalize_loop_idem[of xs "{}"]
        by (simp add: normalize_genres_def)
    qed
  qed
  show "normalize_genres (Some [''Action'', ''action'', ''Drama'']) = [''Action'', ''Drama'']"
    by code_simp
qed


section \<open>Adding a movie\<close>

lemma strip_X: "strip ''X'' = ''X''"
  by code_simp

text \<open>
  C8. \<open>add_movie\<close> raises exactly when the title is empty after trimming or the year is
  outside 1878..3000, and what it raises is then one of the two validation errors
  (\<open>title is required.\<close>, \<open>year looks invalid.\<close>); the five boundary calls of the claim
  behave as listed, whatever the other arguments and the store are.
\<close>

theorem add_movie_fails_iff:
  "isl (snd (add_movie new_id now1 now2 title0 yr gs dir s))
     = (strip title0 = [] \<or> yr < 1878 \<or> 3000 < yr)
   \<and> (snd (add_movie new_id now1 now2 title0 yr gs dir s) = Inl (ValueError ''title is required.'')
        \<or> snd (add_movie new_id now1 now2 title0 yr gs dir s) = Inl (ValueError ''year looks invalid.''))
     = (strip title0 = [] \<or> yr < 1878 \<or> 3000 < yr)
   \<and> snd (add_movie new_id now1 now2 '''' 2000 gs dir s) = Inl (ValueError ''title is required.'')
   \<and> snd (add_movie new_id now1 now2 ''X'' 1877 gs dir s) = Inl (ValueError ''year looks invalid.'')
   \<and> \<not> isl (snd (add_movie new_id now1 now2 ''X'' 1878 gs dir s))
   \<and> \<not> isl (snd (add_movie new_id now1 now2 ''X'' 3000 gs dir s))
   \<and> snd (add_movie new_id now1 now2 ''X'' 3001 gs dir s) = Inl (ValueError ''year looks invalid.'')"
  by (simp add: add_movie_def Let_def strip_X strip_Nil)

text \<open>
  C3, as the claim states it, fails: \<open>created_at\<close> and \<open>updated_at\<close> come from two calls of
  \<open>_now_iso()\<close>, and the clock may move between them. Here the two readings are one
  microsecond apart.
\<close>

theorem add_movie_two_clock_readings:
  "snd (add_movie ''id1'' ''2024-05-01T10:00:00.000001+00:00'' ''2024-05-01T10:00:00.000002+00:00''
          ''Dune'' 2021 (Some [''Sci-Fi'']) (Some ''Denis Villeneuve'') []) = Inr dune
   \<and> created_at dune \<noteq> updated_at dune"
  unfolding dune_def by code_simp

text \<open>
  C3, amended. For every successful \<open>add_movie\<close>, the created record has \<open>created_at\<close> equal
  to the first reading of the clock and \<open>updated_at\<close> equal to the second, so the two are
  equal exactly when the two readings are; \<open>borrowed\<close> is false, \<open>borrowed_by\<close> and
  \<open>borrowed_at\<close> are absent; and the record is the one stored under the new id.
\<close>

theorem add_movie_created_record:
  assumes "snd (add_movie new_id now1 now2 title0 yr gs dir s) = Inr m"
  shows "created_at m = now1 \<and> updated_at m = now2
         \<and> (created_at m = updated_at m) = (now1 = now2)
         \<and> borrowed m = False \<and> borrowed_by m = None \<and> borrowed_at m = None
         \<and> map_of (fst (add_movie new_id now1 now2 title0 yr gs dir s)) new_id = Some m"
  using assms
  by (auto simp add: add_movie_def Let_def movie_public_def update_conv' split: if_splits)

theorem add_movie_created_record_witness:
  "snd (add_movie ''id1'' ''2024-05-01T10:00:00.000001+00:00''
      ''2024-05-01T10:00:00.000002+00:00'' ''Dune'' 2021 (Some [''Sci-Fi''])
      (Some ''Denis Villeneuve'') []) = Inr dune
   \<and> created_at dune = ''2024-05-01T10:00:00.000001+00:00''
   \<and> updated_at dune = ''2024-05-01T10:00:00.000002+00:00''
   \<and> borrowed dune = False \<and> borrowed_by dune = None \<and> borrowed_at dune = None"
proof -
  have h: "snd (add_movie ''id1'' ''2024-05-01T10:00:00.000001+00:00''
      ''2024-05-01T10:00:00.000002+00:00'' ''Dune'' 2021 (Some [''Sci-Fi''])
      (Some ''Denis Villeneuve'') []) = Inr dune"
    unfolding dune_def by code_simp
  show ?thesis using add_movie_created_record[OF h] h by simp
qed

section \<open>Updating a movie\<close>

text \<open>
  C10. \<open>update_movie\<close> with no field provided succeeds on an existing record: the record
  stored and returned is the old one with \<open>updated_at\<close> set to the reading of the clock,
  every other field as it was.
\<close>

theorem update_movie_nothing_provided:
  assumes "map_of s movie_id = Some m"
  shows "update_movie now movie_id None None None None s
           = (AList.update movie_id (m\<lparr>updated_at := now\<rparr>) s, Inr (m\<lparr>updated_at := now\<rparr>))
         \<and> map_of (fst (update_movie now movie_id None None None None s)) movie_id
           = Some (m\<lparr>updated_at := now\<rparr>)"
  using assms
  by (simp add: update_movie_def require_movie_def movie_public_def update_conv' Let_def)

theorem update_movie_nothing_provided_witness:
  "map_of [(''id1'', dune)] ''id1'' = Some dune
   \<and> update_movie ''2024-06-01T00:00:00+00:00'' ''id1'' None None None None [(''id1'', dune)]
     = ([(''id1'', dune\<lparr>updated_at := ''2024-06-01T00:00:00+00:00''\<rparr>)],
        Inr (dune\<lparr>updated_at := ''2024-06-01T00:00:00+00:00''\<rparr>))"
proof -
  have h: "map_of [(''id1'', dune)] ''id1'' = Some dune" by simp
  show ?thesis
    using update_movie_nothing_provided[OF h, of "''2024-06-01T00:00:00+00:00''"] by simp
qed

text \<open>
  C1 at a failing input: \<open>update_movie\<close> with a new title and the year 1800 raises
  \<open>year looks invalid.\<close> after it has written the title, so the stored record has the new
  title (and its old \<open>updated_at\<close>).
\<close>

theorem update_movie_partial_write:
  "update_movie ''2024-06-01T00:00:00+00:00'' ''id1'' (Some ''Arrakis'') (Some 1800) None None
     [(''id1'', dune)]
     = ([(''id1'', dune\<lparr>title := ''Arrakis''\<rparr>)], Inl (ValueError ''year looks invalid.''))
   \<and> dune\<lparr>title := ''Arrakis''\<rparr> \<noteq> dune"
  unfolding dune_def by code_simp

section \<open>Borrowing and returning\<close>

text \<open>
  C5, as the claim states it, fails for a borrower that is blank: the check of the
  borrower comes first, so the call on a borrowed record raises \<open>borrower is required.\<close>,
  which does not name the current borrower.
\<close>

theorem borrow_movie_blank_borrower:
  "map_of [(''id1'', dune_out)] ''id1'' = Some dune_out \<and> borrowed dune_out
   \<and> borrowed_by dune_out = Some ''Alice''
   \<and> borrow_movie ''2024-05-03T09:00:00.000001+00:00'' ''2024-05-03T09:00:00.000002+00:00''
        ''id1'' ''  '' [(''id1'', dune_out)]
       = ([(''id1'', dune_out)], Inl (ValueError ''borrower is required.''))
   \<and> ValueError ''borrower is required.'' \<noteq> ValueError ''Movie is already borrowed by Alice.''"
  unfolding dune_out_def dune_def by code_simp

text \<open>
  C5, amended. On a record that is borrowed, \<open>borrow_movie\<close> with a borrower that is not
  blank raises \<open>Movie is already borrowed by <current borrower>.\<close>, and with a blank borrower
  it raises \<open>borrower is required.\<close>; on a record that is not borrowed, \<open>return_movie\<close> raises
  \<open>Movie is not borrowed.\<close> In all three cases the store is left as it was.
\<close>

theorem borrow_return_rejected:
  assumes "map_of s movie_id = Some m"
  shows "(borrowed m \<and> borrowed_by m = Some who \<and> strip b \<noteq> [] \<longrightarrow>
            borrow_movie now1 now2 movie_id b s
              = (s, Inl (ValueError (''Movie is already borrowed by '' @ who @ ''.''))))
         \<and> (borrowed m \<and> strip b = [] \<longrightarrow>
            borrow_movie now1 now2 movie_id b s = (s, Inl (ValueError ''borrower is required.'')))
         \<and> (\<not> borrowed m \<longrightarrow>
            return_movie now movie_id s = (s, Inl (ValueError ''Movie is not borrowed.'')))"
  using assms
  by (simp add: borrow_movie_def return_movie_def require_movie_def format_opt_def Let_def)

theorem borrow_return_rejected_witness:
  "map_of [(''id1'', dune_out)] ''id1'' = Some dune_out
   \<and> borrowed dune_out \<and> borrowed_by dune_out = Some ''Alice'' \<and> strip ''Bob'' \<noteq> []
   \<and> borrow_movie ''2024-05-03T09:00:00.000001+00:00'' ''2024-05-03T09:00:00.000002+00:00''
        ''id1'' ''Bob'' [(''id1'', dune_out)]
       = ([(''id1'', dune_out)], Inl (ValueError ''Movie is already borrowed by Alice.''))
   \<and> map_of [(''id1'', dune)] ''id1'' = Some dune \<and> \<not> borrowed dune
   \<and> return_movie ''2024-05-03T09:00:00+00:00'' ''id1'' [(''id1'', dune)]
       = ([(''id1'', dune)], Inl (ValueError ''Movie is not borrowed.''))"
proof -
  have h1: "map_of [(''id1'', dune_out)] ''id1'' = Some dune_out" by simp
  have h2: "borrowed dune_out \<and> borrowed_by dune_out = Some ''Alice''"
    by (simp add: dune_out_def)
  have h3: "strip ''Bob'' \<noteq> []" by code_simp
  have h4: "map_of [(''id1'', dune)] ''id1'' = Some dune" by simp
  have h5: "\<not> borrowed dune" by (simp add: dune_def)
  show ?thesis
    using borrow_return_rejected[OF h1, of "''Alice''" "''Bob''"
        "''2024-05-03T09:00:00.000001+00:00''" "''2024-05-03T09:00:00.000002+00:00''"
        "''2024-05-03T09:00:00+00:00''"]
      borrow_return_rejected[OF h4, of "''Alice''" "''Bob''"
        "''2024-05-03T09:00:00.000001+00:00''" "''2024-05-03T09:00:00.000002+00:00''"
        "''2024-05-03T09:00:00+00:00''"]
      h1 h2 h3 h4 h5
    by simp
qed

section \<open>The checkout invariant\<close>

lemma update_values: "snd ` set (AList.update k v al) \<subseteq> insert v (snd ` set al)"
  by (induction al) auto

lemma delete_values: "snd ` set (AList.delete k al) \<subseteq> snd ` set al"
  by (auto simp add: AList.delete_eq)

lemma require_movie_Inr: "require_movie s k = Inr m \<Longrightarrow> m \<in> snd ` set s"
proof -
  assume "require_movie s k = Inr m"
  then have "map_of s k = Some m"
    by (simp add: require_movie_def split: option.splits)
  then have "(k, m) \<in> set s" by (rule map_of_SomeD)
  then show ?thesis by force
qed

lemma store_checkout_inv_iff:
  "store_checkout_inv s = (\<forall>m \<in> snd ` set s. checkout_inv m)"
  by (auto simp add: store_checkout_inv_def list_all_iff)

lemma inv_update:
  assumes "store_checkout_inv s" and "checkout_inv v"
  shows "store_checkout_inv (AList.update k v s)"
  using assms update_values[of k v s]
  unfolding store_checkout_inv_iff by blast

lemma inv_delete:
  assumes "store_checkout_inv s"
  shows "store_checkout_inv (AList.delete k s)"
  using assms delete_values[of k s]
  unfolding store_checkout_inv_iff by blast

lemma inv_require:
  assumes "store_checkout_inv s" and "require_movie s k = Inr m"
  shows "checkout_inv m"
  using assms require_movie_Inr[of s k m]
  unfolding store_checkout_inv_iff by blast

lemma add_movie_inv:
  assumes "store_checkout_inv s"
  shows "store_checkout_inv (fst (add_movie i t1 t2 t y gs d s))"
  using assms by (simp add: add_movie_def Let_def inv_update checkout_inv_def)

lemma checkout_inv_frame:
  "checkout_inv (m\<lparr>title := a\<rparr>) = checkout_inv m"
  "checkout_inv (m\<lparr>year := b\<rparr>) = checkout_inv m"
  "checkout_inv (m\<lparr>genres := c\<rparr>) = checkout_inv m"
  "checkout_inv (m\<lparr>director := e\<rparr>) = checkout_inv m"
  "checkout_inv (m\<lparr>updated_at := f\<rparr>) = checkout_inv m"
  by (simp_all add: checkout_inv_def)

lemma update_movie_inv:
  assumes "store_checkout_inv s"
  shows "store_checkout_inv (fst (update_movie now k t y gs d s))"
proof (cases "require_movie s k")
  case (Inl e)
  then show ?thesis using assms by (simp add: update_movie_def)
next
  case (Inr m)
  then have m: "checkout_inv m" using assms inv_require by blast
  show ?thesis
    using m assms Inr
    by (cases t; cases y; cases gs; cases d)
      (simp_all add: update_movie_def Let_def inv_update checkout_inv_frame)
qed

lemma delete_movie_inv:
  assumes "store_checkout_inv s"
  shows "store_checkout_inv (fst (delete_movie k s))"
  using assms
  by (cases "require_movie s k") (simp_all add: delete_movie_def inv_delete)

lemma borrow_movie_inv:
  assumes "store_checkout_inv s"
  shows "store_checkout_inv (fst (borrow_movie t1 t2 k b s))"
  using assms
  by (cases "require_movie s k")
    (simp_all add: borrow_movie_def Let_def inv_update checkout_inv_def)

lemma return_movie_inv:
  assumes "store_checkout_inv s"
  shows "store_checkout_inv (fst (return_movie now k s))"
  using assms
  by (cases "require_movie s k")
    (simp_all add: return_movie_def Let_def inv_update checkout_inv_def)

lemma step_inv:
  assumes "store_checkout_inv s"
  shows "store_checkout_inv (step s c)"
  using assms
  by (cases c)
    (simp_all add: add_movie_inv update_movie_inv delete_movie_inv borrow_movie_inv
      return_movie_inv)

lemma foldl_step_inv:
  "store_checkout_inv s \<Longrightarrow> store_checkout_inv (foldl step s cs)"
  by (induction cs arbitrary: s) (simp_all add: step_inv)

text \<open>
  C4. In the store after any finite sequence of calls of the eight operations, started from
  the empty store, every record has \<open>borrowed\<close> true iff \<open>borrowed_by\<close> and \<open>borrowed_at\<close>
  are both present, and \<open>borrowed\<close> false iff both are absent. Calls that raise are part of
  the sequences, with the store they leave behind.
\<close>

theorem checkout_invariant_reachable:
  "\<forall>m \<in> snd ` set (run cs).
     (borrowed m \<longleftrightarrow> borrowed_by m \<noteq> None \<and> borrowed_at m \<noteq> None)
     \<and> (\<not> borrowed m \<longleftrightarrow> borrowed_by m = None \<and> borrowed_at m = None)"
proof -
  have "store_checkout_inv []" by (simp add: store_checkout_inv_def)
  then have "store_checkout_inv (run cs)"
    unfolding run_def by (rule foldl_step_inv)
  then have "\<forall>m \<in> snd ` set (run cs). checkout_inv m"
    unfolding store_checkout_inv_iff .
  then show ?thesis unfolding checkout_inv_def by blast
qed


lemma run_dune_calls: "run dune_calls = [(''id1'', dune_out)]"
  unfolding dune_calls_def dune_out_def dune_def by code_simp

theorem checkout_invariant_reachable_witness:
  "run dune_calls = [(''id1'', dune_out)]
   \<and> (borrowed dune_out \<longleftrightarrow> borrowed_by dune_out \<noteq> None \<and> borrowed_at dune_out \<noteq> None)
   \<and> (\<not> borrowed dune_out \<longleftrightarrow> borrowed_by dune_out = None \<and> borrowed_at dune_out = None)"
  using checkout_invariant_reachable[of dune_calls] run_dune_calls by auto

section \<open>Listing and searching\<close>





lemma map_movie_public: "map movie_public xs = xs"
  by (induction xs) (simp_all add: movie_public_def)


lemma lower_Nil_iff: "(lower x = []) = (x = [])"
  by (simp add: lower_def)

lemma search_movies_eq:
  "search_movies q y g d oa s = sort_key movie_key (filter (matches q y g d oa) (map snd s))"
proof -
  have dir: "\<And>m. sublist (lower (strip (or_empty d))) (lower (or_empty (director m)))
        = (provided d \<longrightarrow> director m \<noteq> None
            \<and> sublist (lower (strip (or_empty d))) (lower (the (director m))))"
    by (auto simp add: provided_def or_empty_def lower_def split: option.splits)
  have gen: "\<And>m. list_ex (\<lambda>gg. lower (strip (or_empty g)) = lower gg) (genres m)
        = (lower (strip (or_empty g)) \<in> lower ` set (genres m))"
    by (auto simp add: list_ex_iff)
  show ?thesis
    unfolding search_movies_def Let_def map_movie_public matches_def
    by (cases y) (auto simp add: lower_Nil_iff provided_def dir gen intro!: arg_cong[where f="sort_key movie_key"] filter_cong)
qed


























section \<open>The filters of the search\<close>

text \<open>
  C7, as the claim states it, fails: \<open>search_movies\<close> trims a filter string before it
  matches, so the query \<open>" dune"\<close> returns the movie titled \<open>Dune\<close>, whose title does not
  contain \<open>" dune"\<close> in any case.
\<close>

theorem search_untrimmed_filter:
  "search_movies (Some '' dune'') None None None False [(''id1'', dune)] = [dune]
   \<and> provided (Some '' dune'')
   \<and> \<not> sublist (lower '' dune'') (lower (title dune))
   \<and> \<not> claimed_matches (Some '' dune'') None None None False dune"
  unfolding claimed_matches_def provided_def dune_def by code_simp

lemma provided_simps: "provided None = False" "provided (Some x) = (strip x \<noteq> [])"
  by (simp_all add: provided_def or_empty_def strip_Nil)

text \<open>
  C7, amended. \<open>search_movies\<close> returns exactly the records of the store that satisfy every
  provided filter (\<^const>\<open>matches\<close>), each filter string trimmed before it is matched: the
  trimmed query is a case-insensitive substring of the title, the year is equal, the trimmed
  genre equals one genre entry case-insensitively, the trimmed director is a
  case-insensitive substring of a director that is present, and borrowed records are left
  out when only available ones are asked for. A filter string that is absent or blank is not
  provided: with no filter provided every record is returned. An absent director matches no
  provided director filter. For filter strings without surrounding whitespace this is the
  matching the claim words.
\<close>

theorem search_movies_conjunctive:
  "mset (search_movies q y g d oa s) = mset (filter (matches q y g d oa) (map snd s))
   \<and> (m \<in> set (search_movies q y g d oa s)) = (m \<in> snd ` set s \<and> matches q y g d oa m)
   \<and> (\<not> provided q \<and> y = None \<and> \<not> provided g \<and> \<not> provided d \<and> \<not> oa \<longrightarrow>
        mset (search_movies q y g d oa s) = mset (map snd s))
   \<and> (provided d \<and> director m = None \<longrightarrow> m \<notin> set (search_movies q y g d oa s))
   \<and> (strip (or_empty q) = or_empty q \<and> strip (or_empty g) = or_empty g
        \<and> strip (or_empty d) = or_empty d \<longrightarrow>
        matches q y g d oa m = claimed_matches q y g d oa m)"
proof (intro conjI impI)
  show "mset (search_movies q y g d oa s) = mset (filter (matches q y g d oa) (map snd s))"
    by (simp add: search_movies_eq)
  show "(m \<in> set (search_movies q y g d oa s)) = (m \<in> snd ` set s \<and> matches q y g d oa m)"
    by (auto simp add: search_movies_eq)
next
  assume "\<not> provided q \<and> y = None \<and> \<not> provided g \<and> \<not> provided d \<and> \<not> oa"
  then have "matches q y g d oa = (\<lambda>m. True)"
    by (simp add: matches_def fun_eq_iff)
  then show "mset (search_movies q y g d oa s) = mset (map snd s)"
    by (simp add: search_movies_eq)
next
  assume "provided d \<and> director m = None"
  then have "\<not> matches q y g d oa m" by (simp add: matches_def)
  then show "m \<notin> set (search_movies q y g d oa s)" by (simp add: search_movies_eq)
next
  assume "strip (or_empty q) = or_empty q \<and> strip (or_empty g) = or_empty g
        \<and> strip (or_empty d) = or_empty d"
  then show "matches q y g d oa m = claimed_matches q y g d oa m"
    by (simp add: matches_def claimed_matches_def)
qed

theorem search_movies_conjunctive_witness:
  "matches (Some '' dune'') (Some 2021) (Some ''sci-fi '') (Some ''VILLE'') True dune
   \<and> dune \<in> set (search_movies (Some '' dune'') (Some 2021) (Some ''sci-fi '') (Some ''VILLE'')
        True [(''id1'', dune)])
   \<and> \<not> provided (Some ''  '') \<and> \<not> provided (Some [])
   \<and> mset (search_movies (Some ''  '') None None (Some []) False three_movies)
       = mset (map snd three_movies)
   \<and> provided (Some ''v'') \<and> director (dune\<lparr>director := None\<rparr>) = None
   \<and> dune\<lparr>director := None\<rparr>
       \<notin> set (search_movies None None None (Some ''v'') False [(''id1'', dune\<lparr>director := None\<rparr>)])
   \<and> strip ''dune'' = ''dune''
   \<and> claimed_matches (Some ''dune'') None None None False dune"
proof -
  have m1: "matches (Some '' dune'') (Some 2021) (Some ''sci-fi '') (Some ''VILLE'') True dune"
    unfolding matches_def provided_def dune_def by code_simp
  have in1: "dune \<in> snd ` set [(''id1'', dune)]" by simp
  have r1: "dune \<in> set (search_movies (Some '' dune'') (Some 2021) (Some ''sci-fi '')
      (Some ''VILLE'') True [(''id1'', dune)])"
    using search_movies_conjunctive[of "Some '' dune''" "Some 2021" "Some ''sci-fi ''"
        "Some ''VILLE''" True "[(''id1'', dune)]" dune, THEN conjunct2, THEN conjunct1] m1 in1
    by blast
  have p2: "\<not> provided (Some ''  '')" "\<not> provided (Some [])" "\<not> provided None"
    unfolding provided_def by code_simp+
  have r2: "mset (search_movies (Some ''  '') None None (Some []) False three_movies)
       = mset (map snd three_movies)"
    using search_movies_conjunctive[of "Some ''  ''" None None "Some []" False three_movies dune,
        THEN conjunct2, THEN conjunct2, THEN conjunct1] p2
    by blast
  have p3: "provided (Some ''v'')" unfolding provided_def by code_simp
  have d3: "director (dune\<lparr>director := None\<rparr>) = None" by simp
  have r3: "dune\<lparr>director := None\<rparr>
       \<notin> set (search_movies None None None (Some ''v'') False [(''id1'', dune\<lparr>director := None\<rparr>)])"
    using search_movies_conjunctive[of None None None "Some ''v''" False
        "[(''id1'', dune\<lparr>director := None\<rparr>)]" "dune\<lparr>director := None\<rparr>",
        THEN conjunct2, THEN conjunct2, THEN conjunct2, THEN conjunct1] p3 d3
    by blast
  have s4: "strip ''dune'' = ''dune''" by code_simp
  have t4: "strip (or_empty (Some ''dune'')) = or_empty (Some ''dune'')
      \<and> strip (or_empty None) = or_empty None \<and> strip (or_empty None) = or_empty None"
    by (simp add: or_empty_def s4 strip_Nil)
  have m4: "matches (Some ''dune'') None None None False dune"
    unfolding matches_def provided_def dune_def by code_simp
  have r4: "claimed_matches (Some ''dune'') None None None False dune"
    using search_movies_conjunctive[of "Some ''dune''" None None None False "[]" dune,
        THEN conjunct2, THEN conjunct2, THEN conjunct2, THEN conjunct2] t4 m4
    by blast
  show ?thesis using m1 r1 p2 r2 p3 d3 r3 s4 r4 by blast
qed

section \<open>What a returned record shares with the store\<close>

lemma heap_ok_iff: "heap_ok h = (\<forall>a \<in> snd ` set (movies h). a < length (dict_objs h))"
  by (auto simp add: heap_ok_def list_all_iff)

lemma heap_ok_fresh: "heap_ok h \<Longrightarrow> length (dict_objs h) \<notin> snd ` set (movies h)"
  unfolding heap_ok_iff by blast

lemma require_movie_obj_Inr:
  assumes "require_movie_obj h k = Inr m"
  shows "map_of (movies h) k = Some m" and "m \<in> snd ` set (movies h)"
proof -
  show a: "map_of (movies h) k = Some m"
    using assms by (simp add: require_movie_obj_def split: option.splits)
  have "(k, m) \<in> set (movies h)" using a by (rule map_of_SomeD)
  then show "m \<in> snd ` set (movies h)" by force
qed

lemma movie_public_obj_copy:
  assumes "heap_ok h" and "m \<in> snd ` set (movies h)" and "movie_public_obj m h = (r, h')"
  shows "movies h' = movies h" and "list_objs h' = list_objs h" and "copy_of h' r m"
proof -
  have m: "m < length (dict_objs h)" using assms(1,2) unfolding heap_ok_iff by blast
  have r: "r = length (dict_objs h)" and h': "h' = h\<lparr>dict_objs := dict_objs h @ [dict_objs h ! m]\<rparr>"
    using assms(3) by (simp_all add: movie_public_obj_def new_dict_def)
  show "movies h' = movies h" "list_objs h' = list_objs h" by (simp_all add: h')
  show "copy_of h' r m"
    using m heap_ok_fresh[OF assms(1)] by (simp add: copy_of_def r h' nth_append)
qed

lemma setitem_simps:
  "movies (setitem a f h) = movies h"
  "list_objs (setitem a f h) = list_objs h"
  "length (dict_objs (setitem a f h)) = length (dict_objs h)"
  "heap_ok (setitem a f h) = heap_ok h"
  by (simp_all add: setitem_def heap_ok_def)

lemma new_list_simps:
  "movies (snd (new_list xs h)) = movies h"
  "dict_objs (snd (new_list xs h)) = dict_objs h"
  "heap_ok (snd (new_list xs h)) = heap_ok h"
  by (simp_all add: new_list_def heap_ok_def)

lemma get_movie_obj_returns:
  assumes "heap_ok h" and "get_movie_obj k h = (h', Inr r)"
  shows "\<exists>m. map_of (movies h') k = Some m \<and> copy_of h' r m"
proof (cases "require_movie_obj h k")
  case (Inl e)
  then show ?thesis using assms(2) by (simp add: get_movie_obj_def)
next
  case (Inr m)
  then have p: "movie_public_obj m h = (r, h')"
    using assms(2) by (simp add: get_movie_obj_def split: prod.splits)
  show ?thesis
    using movie_public_obj_copy[OF assms(1) require_movie_obj_Inr(2)[OF Inr] p]
      require_movie_obj_Inr(1)[OF Inr]
    by simp
qed


lemma returns_via_copy:
  assumes "heap_ok g" and "movies g = movies h" and "require_movie_obj h k = Inr m"
    and "movie_public_obj m g = (r, h')"
  shows "\<exists>m. map_of (movies h') k = Some m \<and> copy_of h' r m"
proof -
  have "m \<in> snd ` set (movies g)"
    using require_movie_obj_Inr(2)[OF assms(3)] assms(2) by simp
  from movie_public_obj_copy[OF assms(1) this assms(4)]
  show ?thesis using require_movie_obj_Inr(1)[OF assms(3)] assms(2) by simp
qed

lemma borrow_movie_obj_returns:
  assumes "heap_ok h" and "borrow_movie_obj t1 t2 k b h = (h', Inr r)"
  shows "\<exists>m. map_of (movies h') k = Some m \<and> copy_of h' r m"
proof (cases "require_movie_obj h k")
  case (Inl e)
  then show ?thesis using assms(2) by (simp add: borrow_movie_obj_def Let_def split: if_splits)
next
  case (Inr m)
  let ?g = "setitem m (\<lambda>x. x\<lparr>d_updated_at := t2\<rparr>)
      (setitem m (\<lambda>x. x\<lparr>d_borrowed_at := Some t1\<rparr>)
        (setitem m (\<lambda>x. x\<lparr>d_borrowed_by := Some (strip b)\<rparr>)
          (setitem m (\<lambda>x. x\<lparr>d_borrowed := True\<rparr>) h)))"
  have p: "movie_public_obj m ?g = (r, h')"
    using assms(2) Inr by (simp add: borrow_movie_obj_def Let_def split: if_splits prod.splits)
  show ?thesis
    by (rule returns_via_copy[OF _ _ Inr p]) (simp_all add: setitem_simps assms(1))
qed

lemma return_movie_obj_returns:
  assumes "heap_ok h" and "return_movie_obj now k h = (h', Inr r)"
  shows "\<exists>m. map_of (movies h') k = Some m \<and> copy_of h' r m"
proof (cases "require_movie_obj h k")
  case (Inl e)
  then show ?thesis using assms(2) by (simp add: return_movie_obj_def)
next
  case (Inr m)
  let ?g = "setitem m (\<lambda>x. x\<lparr>d_updated_at := now\<rparr>)
      (setitem m (\<lambda>x. x\<lparr>d_borrowed_at := None\<rparr>)
        (setitem m (\<lambda>x. x\<lparr>d_borrowed_by := None\<rparr>)
          (setitem m (\<lambda>x. x\<lparr>d_borrowed := False\<rparr>) h)))"
  have p: "movie_public_obj m ?g = (r, h')"
    using assms(2) Inr by (simp add: return_movie_obj_def Let_def split: if_splits prod.splits)
  show ?thesis
    by (rule returns_via_copy[OF _ _ Inr p]) (simp_all add: setitem_simps assms(1))
qed

lemma update_movie_obj_returns:
  assumes "heap_ok h" and "update_movie_obj now k t y gs d h = (h', Inr r)"
  shows "\<exists>m. map_of (movies h') k = Some m \<and> copy_of h' r m"
proof (cases "require_movie_obj h k")
  case (Inl e)
  then show ?thesis using assms(2) by (simp add: update_movie_obj_def)
next
  case (Inr m)
  define h1 where "h1 = (case t of None \<Rightarrow> h
      | Some t0 \<Rightarrow> setitem m (\<lambda>x. x\<lparr>d_title := strip t0\<rparr>) h)"
  define h2 where "h2 = (case y of None \<Rightarrow> h1
      | Some y' \<Rightarrow> setitem m (\<lambda>x. x\<lparr>d_year := y'\<rparr>) h1)"
  define h3 where "h3 = (if gs \<noteq> None
      then setitem m (\<lambda>x. x\<lparr>d_genres := fst (new_list (normalize_genres gs) h2)\<rparr>)
             (snd (new_list (normalize_genres gs) h2))
      else h2)"
  define h4 where "h4 = (case d of None \<Rightarrow> h3
      | Some d0 \<Rightarrow> setitem m (\<lambda>x. x\<lparr>d_director :=
          (let d' = strip d0 in if d' = [] then None else Some d')\<rparr>) h3)"
  define h5 where "h5 = setitem m (\<lambda>x. x\<lparr>d_updated_at := now\<rparr>) h4"
  have p: "movie_public_obj m h5 = (r, h')"
    using assms(2) Inr unfolding update_movie_obj_def h5_def h4_def h3_def h2_def h1_def
    by (cases t; cases y; cases gs; cases d)
      (simp_all add: Let_def new_list_def movie_public_obj_def new_dict_def split: if_splits)
  have 1: "movies h1 = movies h \<and> heap_ok h1"
    using assms(1) by (simp add: h1_def setitem_simps split: option.splits)
  have 2: "movies h2 = movies h \<and> heap_ok h2"
    using 1 by (simp add: h2_def setitem_simps split: option.splits)
  have 3: "movies h3 = movies h \<and> heap_ok h3"
    using 2 by (simp add: h3_def setitem_simps new_list_simps)
  have 4: "movies h4 = movies h \<and> heap_ok h4"
    using 3 by (simp add: h4_def setitem_simps split: option.splits)
  have 5: "movies h5 = movies h \<and> heap_ok h5"
    using 4 by (simp add: h5_def setitem_simps)
  show ?thesis
    by (rule returns_via_copy[OF _ _ Inr p]) (simp_all add: 5)
qed

lemma add_movie_obj_returns:
  assumes "heap_ok h" and "add_movie_obj i t1 t2 t y gs d h = (h', Inr r)"
  shows "\<exists>m. map_of (movies h') i = Some m \<and> copy_of h' r m"
proof -
  let ?rec = "\<lparr>d_ident = i, d_title = strip t, d_year = y, d_genres = length (list_objs h),
      d_director = (let d' = strip (or_empty d) in if d' = [] then None else Some d'),
      d_borrowed = False, d_borrowed_by = None, d_borrowed_at = None,
      d_created_at = t1, d_updated_at = t2\<rparr>"
  let ?g = "h\<lparr>list_objs := list_objs h @ [normalize_genres gs], dict_objs := dict_objs h @ [?rec],
      movies := AList.update i (length (dict_objs h)) (movies h)\<rparr>"
  have p: "movie_public_obj (length (dict_objs h)) ?g = (r, h')"
    using assms(2)
    by (simp add: add_movie_obj_def Let_def new_list_def new_dict_def movie_public_obj_def
        split: if_splits)
  have sub: "snd ` set (AList.update i (length (dict_objs h)) (movies h))
      \<subseteq> insert (length (dict_objs h)) (snd ` set (movies h))"
    by (rule update_values)
  have ok: "heap_ok ?g"
    unfolding heap_ok_iff
  proof
    fix a
    assume "a \<in> snd ` set (movies ?g)"
    then have "a \<in> insert (length (dict_objs h)) (snd ` set (movies h))"
      using sub by auto
    then have "a \<le> length (dict_objs h)"
      using assms(1)[unfolded heap_ok_iff] by auto
    then show "a < length (dict_objs ?g)" by simp
  qed
  have look: "map_of (movies ?g) i = Some (length (dict_objs h))"
    by (simp add: update_conv')
  then have "(i, length (dict_objs h)) \<in> set (movies ?g)" by (rule map_of_SomeD)
  then have mem: "length (dict_objs h) \<in> snd ` set (movies ?g)" by force
  from movie_public_obj_copy[OF ok mem p] look show ?thesis by simp
qed


lemma public_all_copies:
  assumes "\<forall>m \<in> set ms. m < length (dict_objs h)" and "public_all ms h = (rs, h')"
  shows "movies h' = movies h \<and> list_objs h' = list_objs h \<and> length (dict_objs h) \<le> length (dict_objs h')
    \<and> (\<forall>a < length (dict_objs h). dict_objs h' ! a = dict_objs h ! a)
    \<and> (\<forall>r \<in> set rs. length (dict_objs h) \<le> r \<and> r < length (dict_objs h')
          \<and> (\<exists>m \<in> set ms. dict_objs h' ! r = dict_objs h ! m))"
  using assms
proof (induction ms arbitrary: h rs h')
  case Nil
  then show ?case by simp
next
  case (Cons m ms)
  define h1 where "h1 = h\<lparr>dict_objs := dict_objs h @ [dict_objs h ! m]\<rparr>"
  obtain rs1 h2 where pa: "public_all ms h1 = (rs1, h2)" by force
  have res: "rs = length (dict_objs h) # rs1" "h' = h2"
    using Cons.prems(2) pa
    by (simp_all add: movie_public_obj_def new_dict_def h1_def[symmetric])
  have m: "m < length (dict_objs h)" using Cons.prems(1) by simp
  have "\<forall>m' \<in> set ms. m' < length (dict_objs h1)"
    using Cons.prems(1) by (auto simp add: h1_def less_Suc_eq)
  from Cons.IH[OF this pa]
  have ih: "movies h2 = movies h1" "list_objs h2 = list_objs h1" "length (dict_objs h1) \<le> length (dict_objs h2)"
    "\<forall>a < length (dict_objs h1). dict_objs h2 ! a = dict_objs h1 ! a"
    "\<forall>r \<in> set rs1. length (dict_objs h1) \<le> r \<and> r < length (dict_objs h2)
          \<and> (\<exists>m' \<in> set ms. dict_objs h2 ! r = dict_objs h1 ! m')"
    by simp_all
  have len1: "length (dict_objs h1) = Suc (length (dict_objs h))" by (simp add: h1_def)
  have old: "\<And>a. a < length (dict_objs h) \<Longrightarrow> dict_objs h1 ! a = dict_objs h ! a"
    by (simp add: h1_def nth_append)
  have a: "movies h' = movies h" "list_objs h' = list_objs h"
    using ih(1,2) by (simp_all add: res h1_def)
  have b: "length (dict_objs h) \<le> length (dict_objs h')" using ih(3) len1 by (simp add: res)
  have c: "\<forall>a < length (dict_objs h). dict_objs h' ! a = dict_objs h ! a"
    using ih(4) len1 old by (simp add: res)
  have d: "\<forall>r \<in> set rs. length (dict_objs h) \<le> r \<and> r < length (dict_objs h')
          \<and> (\<exists>m' \<in> set (m # ms). dict_objs h' ! r = dict_objs h ! m')"
  proof
    fix r
    assume "r \<in> set rs"
    then consider "r = length (dict_objs h)" | "r \<in> set rs1" using res(1) by auto
    then show "length (dict_objs h) \<le> r \<and> r < length (dict_objs h')
          \<and> (\<exists>m' \<in> set (m # ms). dict_objs h' ! r = dict_objs h ! m')"
    proof cases
      case 1
      have "dict_objs h2 ! r = dict_objs h1 ! r" using ih(4) 1 len1 by simp
      also have "\<dots> = dict_objs h ! m" by (simp add: h1_def 1)
      finally show ?thesis using 1 ih(3) len1 by (simp add: res)
    next
      case 2
      then obtain m' where m': "m' \<in> set ms" "dict_objs h2 ! r = dict_objs h1 ! m'"
        and r: "length (dict_objs h1) \<le> r" "r < length (dict_objs h2)"
        using ih(5) by blast
      have "m' < length (dict_objs h)" using Cons.prems(1) m'(1) by simp
      then have "dict_objs h2 ! r = dict_objs h ! m'" using m'(2) old by simp
      then show ?thesis using r len1 m'(1) by (auto simp add: res)
    qed
  qed
  show ?case using a b c d by simp
qed

lemma public_all_returns:
  assumes "heap_ok h" and "set ms \<subseteq> snd ` set (movies h)" and "public_all ms h = (rs, h')"
  shows "\<forall>r \<in> set rs. \<exists>m \<in> snd ` set (movies h'). copy_of h' r m"
proof
  fix r
  assume r: "r \<in> set rs"
  have ms: "\<forall>m \<in> set ms. m < length (dict_objs h)"
    using assms(1,2) unfolding heap_ok_iff by blast
  note pc = public_all_copies[OF ms assms(3)]
  from pc r obtain m where m: "m \<in> set ms" "dict_objs h' ! r = dict_objs h ! m"
    and rr: "length (dict_objs h) \<le> r" "r < length (dict_objs h')"
    by blast
  have mv: "movies h' = movies h" using pc by simp
  have ml: "m < length (dict_objs h)" using ms m(1) by simp
  have "dict_objs h' ! m = dict_objs h ! m" using pc ml by simp
  then have eq: "dict_objs h' ! r = dict_objs h' ! m" using m(2) by simp
  have fresh: "r \<notin> snd ` set (movies h')"
    using assms(1) rr(1) unfolding heap_ok_iff mv by fastforce
  have "copy_of h' r m"
    using rr(2) ml pc fresh eq by (simp add: copy_of_def)
  moreover have "m \<in> snd ` set (movies h')" using m(1) assms(2) mv by auto
  ultimately show "\<exists>m \<in> snd ` set (movies h'). copy_of h' r m" by blast
qed

lemma list_movies_obj_returns:
  assumes "heap_ok h" and "list_movies_obj oa h = (rs, h')"
  shows "\<forall>r \<in> set rs. \<exists>m \<in> snd ` set (movies h'). copy_of h' r m"
proof (rule public_all_returns[OF assms(1)])
  let ?ms = "sort_key (\<lambda>m. dict_key (dict_objs h ! m))
      (filter (\<lambda>m. oa \<longrightarrow> \<not> d_borrowed (dict_objs h ! m)) (map snd (movies h)))"
  show "public_all ?ms h = (rs, h')"
    using assms(2) by (cases oa) (simp_all add: list_movies_obj_def Let_def)
  show "set ?ms \<subseteq> snd ` set (movies h)" by auto
qed


lemma search_movies_obj_returns:
  assumes "heap_ok h" and "search_movies_obj q y g d oa h = (rs, h')"
  shows "\<forall>r \<in> set rs. \<exists>m \<in> snd ` set (movies h'). copy_of h' r m"
proof (rule public_all_returns[OF assms(1)])
  define r0 where "r0 = map snd (movies h)"
  define r1 where "r1 = (if oa then filter (\<lambda>m. \<not> d_borrowed (dict_objs h ! m)) r0 else r0)"
  define r2 where "r2 = (if lower (strip (or_empty q)) \<noteq> []
      then filter (\<lambda>m. sublist (lower (strip (or_empty q))) (lower (d_title (dict_objs h ! m)))) r1
      else r1)"
  define r3 where "r3 = (case y of None \<Rightarrow> r2
      | Some y' \<Rightarrow> filter (\<lambda>m. d_year (dict_objs h ! m) = y') r2)"
  define r4 where "r4 = (if lower (strip (or_empty g)) \<noteq> []
      then filter (\<lambda>m. list_ex (\<lambda>gg. lower (strip (or_empty g)) = lower gg)
                         (list_objs h ! d_genres (dict_objs h ! m))) r3
      else r3)"
  define r5 where "r5 = (if lower (strip (or_empty d)) \<noteq> []
      then filter (\<lambda>m. sublist (lower (strip (or_empty d)))
                         (lower (or_empty (d_director (dict_objs h ! m))))) r4
      else r4)"
  show "public_all (sort_key (\<lambda>m. dict_key (dict_objs h ! m)) r5) h = (rs, h')"
    using assms(2)
    unfolding search_movies_obj_def r5_def r4_def r3_def r2_def r1_def r0_def Let_def
    by simp
  have "set r1 \<subseteq> set r0" by (simp add: r1_def)
  moreover have "set r2 \<subseteq> set r1" by (simp add: r2_def)
  moreover have "set r3 \<subseteq> set r2" by (simp add: r3_def split: option.splits)
  moreover have "set r4 \<subseteq> set r3" by (simp add: r4_def)
  moreover have "set r5 \<subseteq> set r4" by (simp add: r5_def)
  ultimately have "set r5 \<subseteq> set r0" by blast
  then show "set (sort_key (\<lambda>m. dict_key (dict_objs h ! m)) r5) \<subseteq> snd ` set (movies h)"
    by (simp add: r0_def)
qed

lemma setitem_copy_store:
  assumes "r \<notin> snd ` set (movies h)"
  shows "store_of (setitem r f h) = store_of h"
proof -
  have "value_of (setitem r f h) a = value_of h a" if "(k, a) \<in> set (movies h)" for k a
  proof -
    have "a \<in> snd ` set (movies h)" using that by force
    then have "a \<noteq> r" using assms by blast
    then show ?thesis by (simp add: value_of_def setitem_def)
  qed
  then show ?thesis
    by (auto simp add: store_of_def setitem_simps)
qed

lemma list_append_shared:
  assumes "copy_of h r m" and "d_genres (dict_objs h ! m) < length (list_objs h)"
  shows "genres (value_of (list_append (d_genres (dict_objs h ! r)) x h) m)
           = genres (value_of h m) @ [x]"
  using assms by (simp add: copy_of_def value_of_def list_append_def Let_def)


text \<open>
  C2, as the claim states it, fails: \<open>_movie_public\<close> copies the dictionary and not the
  list under \<open>"genres"\<close>. The dictionary \<open>add_movie\<close> returns holds the address of the
  stored record's own genres list, and appending to that list through the returned value
  changes the store.
\<close>

theorem returned_genres_list_is_shared:
  "add_movie_obj ''id1'' ''2024-05-01T10:00:00.000001+00:00'' ''2024-05-01T10:00:00.000002+00:00''
      ''Dune'' 2021 (Some [''Sci-Fi'']) (Some ''Denis Villeneuve'') empty_heap
     = (dune_heap, Inr 1)
   \<and> store_of dune_heap = [(''id1'', dune)]
   \<and> store_of (list_append (d_genres (dict_objs dune_heap ! 1)) ''Horror'' dune_heap)
       = [(''id1'', dune\<lparr>genres := [''Sci-Fi'', ''Horror'']\<rparr>)]
   \<and> store_of (list_append (d_genres (dict_objs dune_heap ! 1)) ''Horror'' dune_heap)
       \<noteq> store_of dune_heap"
  unfolding dune_heap_def dune_dict_def empty_heap_def dune_def by code_simp

text \<open>
  C2, amended. On a heap in which every stored address is a dictionary's, each of the seven
  operations that return a record returns a new dictionary (for \<open>list_movies\<close> and
  \<open>search_movies\<close>, a list of new dictionaries): one that is not a stored dictionary and holds
  what the stored dictionary of the record holds (\<^const>\<open>copy_of\<close>). Assigning to any keys of
  such a returned dictionary leaves the state of the store as it was. The returned
  dictionary's genres list is the stored record's list object: appending to it through the
  returned value appends to the genres of the stored record.
\<close>

theorem returned_record_is_shallow_copy:
  assumes "heap_ok h"
  shows
    "(add_movie_obj i t1 t2 t y gs d h = (h', Inr r) \<longrightarrow>
        (\<exists>m. map_of (movies h') i = Some m \<and> copy_of h' r m))
     \<and> (get_movie_obj k h = (h', Inr r) \<longrightarrow>
        (\<exists>m. map_of (movies h') k = Some m \<and> copy_of h' r m))
     \<and> (update_movie_obj now k ut uy ugs ud h = (h', Inr r) \<longrightarrow>
        (\<exists>m. map_of (movies h') k = Some m \<and> copy_of h' r m))
     \<and> (borrow_movie_obj t1 t2 k b h = (h', Inr r) \<longrightarrow>
        (\<exists>m. map_of (movies h') k = Some m \<and> copy_of h' r m))
     \<and> (return_movie_obj now k h = (h', Inr r) \<longrightarrow>
        (\<exists>m. map_of (movies h') k = Some m \<and> copy_of h' r m))
     \<and> (list_movies_obj oa h = (rs, h') \<longrightarrow>
        (\<forall>r \<in> set rs. \<exists>m \<in> snd ` set (movies h'). copy_of h' r m))
     \<and> (search_movies_obj sq sy sg sd oa h = (rs, h') \<longrightarrow>
        (\<forall>r \<in> set rs. \<exists>m \<in> snd ` set (movies h'). copy_of h' r m))
     \<and> (copy_of h' r m \<longrightarrow> store_of (setitem r f h') = store_of h')
     \<and> (copy_of h' r m \<and> d_genres (dict_objs h' ! m) < length (list_objs h') \<longrightarrow>
        genres (value_of (list_append (d_genres (dict_objs h' ! r)) x h') m)
          = genres (value_of h' m) @ [x])"
proof (intro conjI impI)
  show "\<exists>m. map_of (movies h') i = Some m \<and> copy_of h' r m"
    if "add_movie_obj i t1 t2 t y gs d h = (h', Inr r)"
    using assms that by (rule add_movie_obj_returns)
  show "\<exists>m. map_of (movies h') k = Some m \<and> copy_of h' r m"
    if "get_movie_obj k h = (h', Inr r)"
    using assms that by (rule get_movie_obj_returns)
  show "\<exists>m. map_of (movies h') k = Some m \<and> copy_of h' r m"
    if "update_movie_obj now k ut uy ugs ud h = (h', Inr r)"
    using assms that by (rule update_movie_obj_returns)
  show "\<exists>m. map_of (movies h') k = Some m \<and> copy_of h' r m"
    if "borrow_movie_obj t1 t2 k b h = (h', Inr r)"
    using assms that by (rule borrow_movie_obj_returns)
  show "\<exists>m. map_of (movies h') k = Some m \<and> copy_of h' r m"
    if "return_movie_obj now k h = (h', Inr r)"
    using assms that by (rule return_movie_obj_returns)
  show "\<forall>r \<in> set rs. \<exists>m \<in> snd ` set (movies h'). copy_of h' r m"
    if "list_movies_obj oa h = (rs, h')"
    using assms that by (rule list_movies_obj_returns)
  show "\<forall>r \<in> set rs. \<exists>m \<in> snd ` set (movies h'). copy_of h' r m"
    if "search_movies_obj sq sy sg sd oa h = (rs, h')"
    using assms that by (rule search_movies_obj_returns)
  show "store_of (setitem r f h') = store_of h'" if "copy_of h' r m"
    using that by (intro setitem_copy_store) (simp add: copy_of_def)
  show "genres (value_of (list_append (d_genres (dict_objs h' ! r)) x h') m)
          = genres (value_of h' m) @ [x]"
    if "copy_of h' r m \<and> d_genres (dict_objs h' ! m) < length (list_objs h')"
    using that by (intro list_append_shared) simp_all
qed


theorem returned_record_is_shallow_copy_witness:
  "heap_ok dune_heap
   \<and> snd (get_movie_obj ''id1'' dune_heap) = Inr 2
   \<and> copy_of (fst (get_movie_obj ''id1'' dune_heap)) 2 0
   \<and> snd (add_movie_obj ''id2'' ''2024-05-04'' ''2024-05-05'' ''Alien'' 1979 None None dune_heap)
       = Inr 3
   \<and> copy_of (fst (add_movie_obj ''id2'' ''2024-05-04'' ''2024-05-05'' ''Alien'' 1979 None None
        dune_heap)) 3 2
   \<and> snd (update_movie_obj ''2024-05-06'' ''id1'' None None (Some [''Epic'']) None dune_heap)
       = Inr 2
   \<and> copy_of (fst (update_movie_obj ''2024-05-06'' ''id1'' None None (Some [''Epic'']) None
        dune_heap)) 2 0
   \<and> snd (borrow_movie_obj ''2024-05-07'' ''2024-05-08'' ''id1'' ''Alice'' dune_heap) = Inr 2
   \<and> copy_of (fst (borrow_movie_obj ''2024-05-07'' ''2024-05-08'' ''id1'' ''Alice'' dune_heap)) 2 0
   \<and> snd (return_movie_obj ''2024-05-09''  ''id1''
        (fst (borrow_movie_obj ''2024-05-07'' ''2024-05-08'' ''id1'' ''Alice'' dune_heap))) = Inr 3
   \<and> copy_of (fst (return_movie_obj ''2024-05-09''  ''id1''
        (fst (borrow_movie_obj ''2024-05-07'' ''2024-05-08'' ''id1'' ''Alice'' dune_heap)))) 3 0
   \<and> fst (list_movies_obj False dune_heap) = [2]
   \<and> copy_of (snd (list_movies_obj False dune_heap)) 2 0
   \<and> fst (search_movies_obj (Some ''dune'') None None None False dune_heap) = [2]
   \<and> copy_of (snd (search_movies_obj (Some ''dune'') None None None False dune_heap)) 2 0
   \<and> store_of (setitem 2 (\<lambda>x. x\<lparr>d_title := ''Changed'', d_genres := 7\<rparr>)
        (fst (get_movie_obj ''id1'' dune_heap)))
       = store_of (fst (get_movie_obj ''id1'' dune_heap))
   \<and> genres (value_of (list_append
        (d_genres (dict_objs (fst (get_movie_obj ''id1'' dune_heap)) ! 2)) ''Horror''
        (fst (get_movie_obj ''id1'' dune_heap))) 0)
       = genres (value_of (fst (get_movie_obj ''id1'' dune_heap)) 0) @ [''Horror'']"
proof -
  have ok: "heap_ok dune_heap"
    by (simp add: heap_ok_def dune_heap_def)
  note th = returned_record_is_shallow_copy
  let ?get = "get_movie_obj ''id1'' dune_heap"
  have g1: "snd ?get = Inr 2" by code_simp
  have g2: "map_of (movies (fst ?get)) ''id1'' = Some 0" by code_simp
  have g3: "copy_of (fst ?get) 2 0"
    using th[OF ok, where k="''id1''" and h'="fst ?get" and r=2,
        THEN conjunct2, THEN conjunct1] g1 g2
    by (auto simp add: prod_eq_iff)
  let ?add = "add_movie_obj ''id2'' ''2024-05-04'' ''2024-05-05'' ''Alien'' 1979 None None dune_heap"
  have a1: "snd ?add = Inr 3" by code_simp
  have a2: "map_of (movies (fst ?add)) ''id2'' = Some 2" by code_simp
  have a3: "copy_of (fst ?add) 3 2"
    using th[OF ok, where i="''id2''" and ?t1.0="''2024-05-04''" and ?t2.0="''2024-05-05''"
        and t="''Alien''" and y=1979 and gs=None and d=None and h'="fst ?add" and r=3,
        THEN conjunct1] a1 a2
    by (auto simp add: prod_eq_iff)
  let ?upd = "update_movie_obj ''2024-05-06'' ''id1'' None None (Some [''Epic'']) None dune_heap"
  have u1: "snd ?upd = Inr 2" by code_simp
  have u2: "map_of (movies (fst ?upd)) ''id1'' = Some 0" by code_simp
  have u3: "copy_of (fst ?upd) 2 0"
    using th[OF ok, where now="''2024-05-06''" and k="''id1''" and ut=None and uy=None
        and ugs="Some [''Epic'']" and ud=None and h'="fst ?upd" and r=2,
        THEN conjunct2, THEN conjunct2, THEN conjunct1] u1 u2
    by (auto simp add: prod_eq_iff)
  let ?bor = "borrow_movie_obj ''2024-05-07'' ''2024-05-08'' ''id1'' ''Alice'' dune_heap"
  have b1: "snd ?bor = Inr 2" by code_simp
  have b2: "map_of (movies (fst ?bor)) ''id1'' = Some 0" by code_simp
  have b3: "copy_of (fst ?bor) 2 0"
    using th[OF ok, where ?t1.0="''2024-05-07''" and ?t2.0="''2024-05-08''" and k="''id1''"
        and b="''Alice''" and h'="fst ?bor" and r=2,
        THEN conjunct2, THEN conjunct2, THEN conjunct2, THEN conjunct1] b1 b2
    by (auto simp add: prod_eq_iff)
  let ?ret = "return_movie_obj ''2024-05-09''  ''id1'' (fst ?bor)"
  have okb: "heap_ok (fst ?bor)" by code_simp
  have r1: "snd ?ret = Inr 3" by code_simp
  have r2: "map_of (movies (fst ?ret)) ''id1'' = Some 0" by code_simp
  have r3: "copy_of (fst ?ret) 3 0"
    using th[OF okb, where now="''2024-05-09''" and k="''id1''" and h'="fst ?ret" and r=3,
        THEN conjunct2, THEN conjunct2, THEN conjunct2, THEN conjunct2, THEN conjunct1] r1 r2
    by (auto simp add: prod_eq_iff)
  let ?lst = "list_movies_obj False dune_heap"
  have l1: "fst ?lst = [2]" by code_simp
  have l2: "snd ` set (movies (snd ?lst)) = {0}" by code_simp
  have l3: "copy_of (snd ?lst) 2 0"
    using th[OF ok, where oa=False and rs="[2]" and h'="snd ?lst",
        THEN conjunct2, THEN conjunct2, THEN conjunct2, THEN conjunct2, THEN conjunct2,
        THEN conjunct1] l1 l2
    by (auto simp add: prod_eq_iff)
  let ?sea = "search_movies_obj (Some ''dune'') None None None False dune_heap"
  have s1: "fst ?sea = [2]" by code_simp
  have s2: "snd ` set (movies (snd ?sea)) = {0}" by code_simp
  have s3: "copy_of (snd ?sea) 2 0"
    using th[OF ok, where sq="Some ''dune''" and sy=None and sg=None and sd=None and oa=False
        and rs="[2]" and h'="snd ?sea",
        THEN conjunct2, THEN conjunct2, THEN conjunct2, THEN conjunct2, THEN conjunct2,
        THEN conjunct2, THEN conjunct1] s1 s2
    by (auto simp add: prod_eq_iff)
  note tail = th[OF ok, where h'="fst ?get" and r=2 and m=0,
        THEN conjunct2, THEN conjunct2, THEN conjunct2, THEN conjunct2, THEN conjunct2,
        THEN conjunct2, THEN conjunct2]
  have w1: "store_of (setitem 2 (\<lambda>x. x\<lparr>d_title := ''Changed'', d_genres := 7\<rparr>) (fst ?get))
       = store_of (fst ?get)"
    using tail[THEN conjunct1] g3 by blast
  have gl: "d_genres (dict_objs (fst ?get) ! 0) < length (list_objs (fst ?get))" by code_simp
  have w2: "genres (value_of (list_append (d_genres (dict_objs (fst ?get) ! 2)) ''Horror''
        (fst ?get)) 0) = genres (value_of (fst ?get) 0) @ [''Horror'']"
    using tail[THEN conjunct2] g3 gl by blast
  show ?thesis
    using ok g1 g3 a1 a3 u1 u3 b1 b3 r1 r3 l1 l3 s1 s3 w1 w2 by blast
qed

end
